theory Spec2Isabelle
  imports Complex_Main "HOL-Library.Multiset"
begin

section \<open>Data model\<close>

text \<open>
  The library \<^verbatim>\<open>lib/quaternion.ts\<close> computes on JavaScript numbers. They are modelled
  here as the type \<^typ>\<open>real\<close>: every operation is the exact one (no rounding, no
  overflow to infinity, no NaN), so a statement of the form \<open>a \<approx> b\<close> is proved as the
  equation \<open>a = b\<close> of exact arithmetic. Prime signatures (\<^verbatim>\<open>number[]\<close> holding
  entries of the prime table) are lists of natural numbers.
\<close>

record Quaternion =
  w :: real
  x :: real
  y :: real
  z :: real

text \<open>
  The scoring functions take any object with the two fields \<^verbatim>\<open>quaternion\<close> and
  \<^verbatim>\<open>primeSignature\<close>; a \<^verbatim>\<open>Memory\<close> has three more (\<^verbatim>\<open>id\<close>, here \<open>mem_id\<close>,
  \<^verbatim>\<open>content\<close>, \<^verbatim>\<open>timestamp\<close>). The record extension mirrors the structural typing.
\<close>

record Encoded =
  quaternion :: Quaternion
  primeSignature :: "nat list"

record Memory = Encoded +
  mem_id :: string
  content :: string
  timestamp :: real

record SearchResult =
  memory :: Memory
  resonance :: real
  similarity :: real
  quaternionAlignment :: real
  clusterId :: "nat option"

record Cluster =
  cluster_id :: nat
  results :: "SearchResult list"
  avgResonance :: real

section \<open>Vector algebra\<close>

definition PRIMES :: "nat list" where
  "PRIMES =
    [2, 3, 5, 7, 11, 13, 17, 19, 23, 29, 31, 37, 41, 43, 47, 53, 59, 61, 67, 71,
     73, 79, 83, 89, 97, 101, 103, 107, 109, 113, 127, 131, 137, 139, 149, 151,
     157, 163, 167, 173, 179, 181, 191, 193, 197, 199, 211, 223, 227, 229, 233,
     239, 241, 251, 257, 263, 269, 271, 277, 281, 283, 293, 307, 311, 313, 317,
     331, 337, 347, 349, 353, 359, 367, 373, 379, 383, 389, 397, 401, 409, 419,
     421, 431, 433, 439, 443, 449, 457, 461, 463, 467, 479, 487, 491, 499, 503,
     509, 521, 523, 541]"

definition createQuaternion :: "real \<Rightarrow> real \<Rightarrow> real \<Rightarrow> real \<Rightarrow> Quaternion" where
  "createQuaternion a b c d = \<lparr>w = a, x = b, y = c, z = d\<rparr>"

definition magnitude :: "Quaternion \<Rightarrow> real" where
  "magnitude q = sqrt (w q * w q + x q * x q + y q * y q + z q * z q)"

text \<open>
  \<^verbatim>\<open>normalize\<close> of the source; renamed, as HOL has a constant of that name. As
  everywhere, the arithmetic is exact: the squares under the root neither overflow nor
  underflow, as those of double-precision components beyond about \<open>1e154\<close> in size or
  below about \<open>1e-154\<close> do; such components are outside the model.
\<close>

definition normalize_q :: "Quaternion \<Rightarrow> Quaternion" where
  "normalize_q q =
     (let mag = magnitude q in
      if mag = 0 then \<lparr>w = 1, x = 0, y = 0, z = 0\<rparr>
      else \<lparr>w = w q / mag, x = x q / mag, y = y q / mag, z = z q / mag\<rparr>)"

definition hamiltonProduct :: "Quaternion \<Rightarrow> Quaternion \<Rightarrow> Quaternion" where
  "hamiltonProduct q1 q2 = normalize_q
     \<lparr>w = w q1 * w q2 - x q1 * x q2 - y q1 * y q2 - z q1 * z q2,
      x = w q1 * x q2 + x q1 * w q2 + y q1 * z q2 - z q1 * y q2,
      y = w q1 * y q2 - x q1 * z q2 + y q1 * w q2 + z q1 * x q2,
      z = w q1 * z q2 + x q1 * y q2 - y q1 * x q2 + z q1 * w q2\<rparr>"

definition dot :: "Quaternion \<Rightarrow> Quaternion \<Rightarrow> real" where
  "dot q1 q2 = w q1 * w q2 + x q1 * x q2 + y q1 * y q2 + z q1 * z q2"

definition negate :: "Quaternion \<Rightarrow> Quaternion" where
  "negate q = \<lparr>w = - w q, x = - x q, y = - y q, z = - z q\<rparr>"

text \<open>
  \<^verbatim>\<open>slerp\<close>: \<open>d0\<close> is the dot product as first computed, \<open>d\<close> and \<open>q2Adj\<close> the values
  after the sign correction of the source's first \<^verbatim>\<open>if\<close>.
\<close>

definition slerp :: "Quaternion \<Rightarrow> Quaternion \<Rightarrow> real \<Rightarrow> Quaternion" where
  "slerp q1 q2 t =
     (let d0 = dot q1 q2;
          d = (if d0 < 0 then - d0 else d0);
          q2Adj = (if d0 < 0 then negate q2 else q2)
      in if d > 0.9995 then
           normalize_q
             \<lparr>w = w q1 + t * (w q2Adj - w q1),
              x = x q1 + t * (x q2Adj - x q1),
              y = y q1 + t * (y q2Adj - y q1),
              z = z q1 + t * (z q2Adj - z q1)\<rparr>
         else
           (let theta0 = arccos d;
                theta = theta0 * t;
                sinTheta = sin theta;
                sinTheta0 = sin theta0;
                s0 = cos theta - d * sinTheta / sinTheta0;
                s1 = sinTheta / sinTheta0
            in normalize_q
                 \<lparr>w = s0 * w q1 + s1 * w q2Adj,
                  x = s0 * x q1 + s1 * x q2Adj,
                  y = s0 * y q1 + s1 * y q2Adj,
                  z = s0 * z q1 + s1 * z q2Adj\<rparr>))"

section \<open>Text encoder\<close>

text \<open>
  A JavaScript \<^verbatim>\<open>Set\<close> built from an array keeps one copy of each element, in the order
  of first insertion; it is modelled as the list of its elements in that order, its
  \<^verbatim>\<open>size\<close> being the length and \<^verbatim>\<open>has\<close> membership.
\<close>

definition newSet :: "'a list \<Rightarrow> 'a list" where
  "newSet as = fold (\<lambda>a acc. if a \<in> set acc then acc else acc @ [a]) as []"

text \<open>
  Strings are lists of 8-bit characters, read as the JavaScript strings whose UTF-16 code
  units are all below 256 (the Latin-1 range), \<open>of_char\<close> being \<^verbatim>\<open>charCodeAt(0)\<close>.
  \<^verbatim>\<open>String.prototype.toLowerCase\<close> is a built-in; on this range the Unicode case
  mapping sends \<open>A\<close>..\<open>Z\<close> and the accented capitals \<open>0xC0\<close>..\<open>0xDE\<close> (the
  multiplication sign \<open>0xD7\<close> apart) to the character 32 places above and leaves every
  other character unchanged.
\<close>

definition lower_char :: "char \<Rightarrow> char" where
  "lower_char c =
     (let n = (of_char c :: nat) in
      if (65 \<le> n \<and> n \<le> 90) \<or> (192 \<le> n \<and> n \<le> 222 \<and> n \<noteq> 215)
      then char_of (n + 32) else c)"

definition toLowerCase :: "string \<Rightarrow> string" where
  "toLowerCase s = map lower_char s"

text \<open>
  \<^verbatim>\<open>String.prototype.toUpperCase\<close>, used by the specification to name a case variant.
  Its result is a list of UTF-16 code units, since two characters of the range have
  their capital form outside it: \<open>a\<close>..\<open>z\<close> and \<open>0xE0\<close>..\<open>0xFE\<close> (the division
  sign \<open>0xF7\<close> apart) go 32 places down, the sharp s \<open>0xDF\<close> becomes the two
  characters \<open>SS\<close>, the micro sign \<open>0xB5\<close> becomes the Greek capital mu \<open>0x39C\<close>,
  \<open>0xFF\<close> becomes \<open>0x178\<close>, and every other character is unchanged.
\<close>

definition upper_char :: "char \<Rightarrow> nat list" where
  "upper_char c =
     (let n = (of_char c :: nat) in
      if n = 223 then [83, 83]
      else if n = 181 then [924]
      else if n = 255 then [376]
      else if (97 \<le> n \<and> n \<le> 122) \<or> (224 \<le> n \<and> n \<le> 254 \<and> n \<noteq> 247)
      then [n - 32] else [n])"

definition toUpperCase :: "string \<Rightarrow> nat list" where
  "toUpperCase s = concat (map upper_char s)"

text \<open>
  To encode the capital form of a string, \<^verbatim>\<open>toLowerCase\<close> is needed on its code units:
  \<open>lower_unit\<close> is \<open>lower_char\<close> on the units below 256, sends the two capitals
  that \<open>toUpperCase\<close> produces outside that range to their small forms (\<open>0x39C\<close> to
  the Greek small mu \<open>0x3BC\<close>, \<open>0x178\<close> to \<open>0xFF\<close>), and covers no other code unit
  (\<open>None\<close>). Every code unit of the capital form of a string of the range is covered.
\<close>

definition lower_unit :: "nat \<Rightarrow> nat option" where
  "lower_unit n =
     (if n < 256 then Some (of_char (lower_char (char_of n)))
      else if n = 924 then Some 956
      else if n = 376 then Some 255
      else None)"

fun toLowerCase_units :: "nat list \<Rightarrow> nat list option" where
  "toLowerCase_units [] = Some []"
| "toLowerCase_units (n # ns) =
     (case lower_unit n of
        None \<Rightarrow> None
      | Some m \<Rightarrow> (case toLowerCase_units ns of None \<Rightarrow> None | Some ms \<Rightarrow> Some (m # ms)))"

text \<open>
  \<^verbatim>\<open>encodeText\<close>: \<open>signature_of\<close> is the first \<^verbatim>\<open>forEach\<close> (the array
  \<^verbatim>\<open>primeSignature\<close> before deduplication), \<open>harmonic_step\<close> the body of the second.
\<close>

definition signature_of :: "string \<Rightarrow> nat list" where
  "signature_of chars =
     map (\<lambda>(char, i). PRIMES ! ((of_char char + i) mod length PRIMES))
         (zip chars [0..<length chars])"

definition harmonic_step :: "nat \<times> nat \<Rightarrow> Quaternion \<Rightarrow> Quaternion" where
  "harmonic_step = (\<lambda>(prime, i) acc.
     (let phase = real (prime * (i + 1)) / 1000 in
      \<lparr>w = w acc + cos phase,
       x = x acc + sin phase * cos (phase * 2),
       y = y acc + sin (phase * 2) * cos phase,
       z = z acc + sin phase * sin (phase * 2)\<rparr>))"

definition encodeText :: "string \<Rightarrow> Encoded" where
  "encodeText text =
     (let chars = toLowerCase text;
          sig = signature_of chars;
          n = (if length sig = 0 then 1 else length sig);
          acc = fold harmonic_step (zip sig [0..<length sig]) \<lparr>w = 0, x = 0, y = 0, z = 0\<rparr>
      in \<lparr>quaternion = normalize_q
             \<lparr>w = w acc / real n, x = x acc / real n, y = y acc / real n, z = z acc / real n\<rparr>,
          primeSignature = newSet sig\<rparr>)"

text \<open>
  \<^verbatim>\<open>encodeText\<close> on a string given by its code units: \<open>encode_codes\<close> is the function
  from the lowered code units on (the two \<^verbatim>\<open>forEach\<close> and the normalisation), and
  \<open>encodeText_units\<close> lowers first.
\<close>

definition signature_codes :: "nat list \<Rightarrow> nat list" where
  "signature_codes codes =
     map (\<lambda>(code, i). PRIMES ! ((code + i) mod length PRIMES))
         (zip codes [0..<length codes])"

definition encode_codes :: "nat list \<Rightarrow> Encoded" where
  "encode_codes codes =
     (let sig = signature_codes codes;
          n = (if length sig = 0 then 1 else length sig);
          acc = fold harmonic_step (zip sig [0..<length sig]) \<lparr>w = 0, x = 0, y = 0, z = 0\<rparr>
      in \<lparr>quaternion = normalize_q
             \<lparr>w = w acc / real n, x = x acc / real n, y = y acc / real n, z = z acc / real n\<rparr>,
          primeSignature = newSet sig\<rparr>)"

definition encodeText_units :: "nat list \<Rightarrow> Encoded option" where
  "encodeText_units units =
     (case toLowerCase_units units of
        None \<Rightarrow> None
      | Some codes \<Rightarrow> Some (encode_codes codes))"

section \<open>Similarity and entanglement\<close>

definition jaccardSimilarity :: "nat list \<Rightarrow> nat list \<Rightarrow> real" where
  "jaccardSimilarity sig1 sig2 =
     (let set1 = newSet sig1;
          set2 = newSet sig2;
          intersection = newSet (filter (\<lambda>a. a \<in> set set2) set1);
          union = newSet (set1 @ set2)
      in if length union = 0 then 0 else real (length intersection) / real (length union))"

definition resonanceScore ::
  "'a Encoded_scheme \<Rightarrow> 'b Encoded_scheme \<Rightarrow> real \<Rightarrow> real \<Rightarrow> real" where
  "resonanceScore query pattern alpha beta =
     (let jaccard = jaccardSimilarity (primeSignature query) (primeSignature pattern);
          semanticAlignment = \<bar>dot (quaternion query) (quaternion pattern)\<bar>
      in alpha * jaccard + beta * semanticAlignment)"

text \<open>The call with the two default weights \<^verbatim>\<open>alpha = 0.5, beta = 0.5\<close>.\<close>

definition resonanceScore_default :: "'a Encoded_scheme \<Rightarrow> 'b Encoded_scheme \<Rightarrow> real" where
  "resonanceScore_default query pattern = resonanceScore query pattern 0.5 0.5"

definition entanglementStrength :: "'a Encoded_scheme \<Rightarrow> 'b Encoded_scheme \<Rightarrow> real" where
  "entanglementStrength memA memB =
     (let sigA = newSet (primeSignature memA);
          sigB = newSet (primeSignature memB);
          intersection = newSet (filter (\<lambda>a. a \<in> set sigB) sigA);
          maxSize = max (length sigA) (length sigB);
          primeOverlap = (if maxSize = 0 then 0 else real (length intersection) / real maxSize);
          quatDot = \<bar>dot (quaternion memA) (quaternion memB)\<bar>
      in 0.5 * (primeOverlap + quatDot))"

section \<open>Clustering\<close>

text \<open>
  \<^verbatim>\<open>clusterResults\<close> of \<^verbatim>\<open>MemoryDecoder.tsx\<close> (both copies are the same but for the
  default of the threshold). \<open>inner_step\<close> is the body of the loop on \<open>j\<close>,
  \<open>outer_step\<close> the body of the loop on \<open>i\<close>; the state of the inner loop is the set
  \<^verbatim>\<open>assigned\<close> and the array \<^verbatim>\<open>cluster\<close>, that of the outer loop \<^verbatim>\<open>assigned\<close> and
  \<^verbatim>\<open>clusterList\<close>. The assignment \<^verbatim>\<open>r.clusterId = clusterId\<close> writes into the result
  objects, which the returned clusters hold; the entries of the input array are taken to
  be distinct objects, as the caller builds them. \<^verbatim>\<open>Array.prototype.sort\<close> is stable;
  with the comparator \<^verbatim>\<open>b.avgResonance - a.avgResonance\<close> it is the stable sort on the
  key \<open>- avgResonance\<close>.
  The parameter \<^verbatim>\<open>results\<close> is written \<open>res\<close>, \<open>results\<close> being the field of a
  cluster, and the field \<^verbatim>\<open>id\<close> of a cluster is \<open>cluster_id\<close>.
\<close>

definition encoded_of :: "Memory \<Rightarrow> Encoded" where
  "encoded_of m = \<lparr>quaternion = quaternion m, primeSignature = primeSignature m\<rparr>"

definition inner_step ::
  "SearchResult list \<Rightarrow> real \<Rightarrow> nat \<Rightarrow> nat \<Rightarrow> nat set \<times> SearchResult list
     \<Rightarrow> nat set \<times> SearchResult list" where
  "inner_step res threshold i j = (\<lambda>(assigned, cluster).
     if j \<in> assigned then (assigned, cluster)
     else
       (let strength = entanglementStrength (encoded_of (memory (res ! i)))
                                            (encoded_of (memory (res ! j)))
        in if strength \<ge> threshold then (insert j assigned, cluster @ [res ! j])
           else (assigned, cluster)))"

definition make_cluster :: "nat \<Rightarrow> SearchResult list \<Rightarrow> Cluster" where
  "make_cluster cid cluster =
     (let marked = map (\<lambda>r. r\<lparr>clusterId := Some cid\<rparr>) cluster
      in \<lparr>cluster_id = cid,
          results = marked,
          avgResonance = fold (\<lambda>r sum. sum + resonance r) marked 0 / real (length marked)\<rparr>)"

definition outer_step ::
  "SearchResult list \<Rightarrow> real \<Rightarrow> nat \<Rightarrow> nat set \<times> Cluster list \<Rightarrow> nat set \<times> Cluster list" where
  "outer_step res threshold i = (\<lambda>(assigned, clusterList).
     if i \<in> assigned then (assigned, clusterList)
     else
       (let (assigned', cluster) =
              fold (inner_step res threshold i) [i + 1..<length res]
                   (insert i assigned, [res ! i])
        in (assigned', clusterList @ [make_cluster (length clusterList) cluster])))"

definition clusterResults :: "SearchResult list \<Rightarrow> real \<Rightarrow> Cluster list" where
  "clusterResults res threshold =
     (if length res = 0 then []
      else
        (let (assigned, clusterList) =
               fold (outer_step res threshold) [0..<length res] ({}, [])
         in sort_key (\<lambda>c. - avgResonance c) clusterList))"

text \<open>
  The algorithm as section 4.5 of the specification words it, on lists: the first
  result not yet in a cluster is the seed of a new cluster; the later results that are
  not yet in a cluster and whose entanglement strength against the seed is at least the
  threshold join it; the others are left for the following clusters. Clusters are
  numbered in the order of their creation, and the list is sorted by descending average
  resonance.
\<close>

definition linked :: "real \<Rightarrow> SearchResult \<Rightarrow> SearchResult \<Rightarrow> bool" where
  "linked threshold seed r \<longleftrightarrow>
     entanglementStrength (encoded_of (memory seed)) (encoded_of (memory r)) \<ge> threshold"

definition mean_resonance :: "SearchResult list \<Rightarrow> real" where
  "mean_resonance members = sum_list (map resonance members) / real (length members)"

definition spec_cluster :: "nat \<Rightarrow> SearchResult list \<Rightarrow> Cluster" where
  "spec_cluster cid members =
     \<lparr>cluster_id = cid,
      results = map (\<lambda>r. r\<lparr>clusterId := Some cid\<rparr>) members,
      avgResonance = mean_resonance members\<rparr>"

function greedy_clusters :: "real \<Rightarrow> nat \<Rightarrow> SearchResult list \<Rightarrow> Cluster list" where
  "greedy_clusters threshold cid [] = []"
| "greedy_clusters threshold cid (seed # later) =
     spec_cluster cid (seed # filter (linked threshold seed) later)
       # greedy_clusters threshold (cid + 1) (filter (\<lambda>r. \<not> linked threshold seed r) later)"
  by pat_completeness auto
termination
  by (relation "measure (\<lambda>(threshold, cid, rs). length rs)") (auto simp: less_Suc_eq_le)

definition spec_clusterResults :: "SearchResult list \<Rightarrow> real \<Rightarrow> Cluster list" where
  "spec_clusterResults res threshold =
     sort_key (\<lambda>c. - avgResonance c) (greedy_clusters threshold 0 res)"

text \<open>
  A result without its cluster mark, to compare the members of the clusters with the
  input results: the loop writes \<^verbatim>\<open>clusterId\<close> and nothing else.
\<close>

definition unmark :: "SearchResult \<Rightarrow> SearchResult" where
  "unmark r = r\<lparr>clusterId := None\<rparr>"

text \<open>Three results on which the clustering is run below.\<close>

definition example_result :: "Quaternion \<Rightarrow> nat list \<Rightarrow> real \<Rightarrow> SearchResult" where
  "example_result q s r =
     \<lparr>memory = \<lparr>quaternion = q, primeSignature = s, mem_id = ''m'', content = ''t'', timestamp = 0\<rparr>,
      resonance = r, similarity = 0, quaternionAlignment = 0, clusterId = None\<rparr>"

definition example_results :: "SearchResult list" where
  "example_results =
     [example_result \<lparr>w = 1, x = 0, y = 0, z = 0\<rparr> [2, 3] (1 / 2),
      example_result \<lparr>w = 0, x = 1, y = 0, z = 0\<rparr> [5] (9 / 10),
      example_result \<lparr>w = 1, x = 0, y = 0, z = 0\<rparr> [2] (3 / 10)]"

definition example_clusters :: "Cluster list" where
  "example_clusters =
     [\<lparr>cluster_id = 1,
       results = [(example_result \<lparr>w = 0, x = 1, y = 0, z = 0\<rparr> [5] (9 / 10))\<lparr>clusterId := Some 1\<rparr>],
       avgResonance = 9 / 10\<rparr>,
      \<lparr>cluster_id = 0,
       results = [(example_result \<lparr>w = 1, x = 0, y = 0, z = 0\<rparr> [2, 3] (1 / 2))\<lparr>clusterId := Some 0\<rparr>,
                  (example_result \<lparr>w = 1, x = 0, y = 0, z = 0\<rparr> [2] (3 / 10))\<lparr>clusterId := Some 0\<rparr>],
       avgResonance = 2 / 5\<rparr>]"

section \<open>Properties of the vector algebra\<close>

lemma magnitude_nonneg: "0 \<le> magnitude q"
  by (simp add: magnitude_def)

lemma magnitude_sq: "magnitude q * magnitude q = w q * w q + x q * x q + y q * y q + z q * z q"
  by (simp add: magnitude_def)

lemma magnitude_eq_0_iff: "magnitude q = 0 \<longleftrightarrow> w q = 0 \<and> x q = 0 \<and> y q = 0 \<and> z q = 0"
proof -
  have "w q * w q + x q * x q + y q * y q + z q * z q = 0
        \<longleftrightarrow> w q = 0 \<and> x q = 0 \<and> y q = 0 \<and> z q = 0"
    by (smt (verit) mult_eq_0_iff zero_le_square)
  then show ?thesis by (simp add: magnitude_def)
qed

lemma magnitude_normalize: "magnitude (normalize_q q) = 1"
proof (cases "magnitude q = 0")
  case True
  then show ?thesis by (simp add: normalize_q_def magnitude_def)
next
  case False
  define m where "m = magnitude q"
  have m: "m \<noteq> 0" "m * m = w q * w q + x q * x q + y q * y q + z q * z q"
    using False by (simp_all add: m_def magnitude_sq)
  have "w q / m * (w q / m) + x q / m * (x q / m) + y q / m * (y q / m) + z q / m * (z q / m)
        = (w q * w q + x q * x q + y q * y q + z q * z q) / (m * m)"
    by (simp add: add_divide_distrib)
  also have "\<dots> = 1" using m by (metis divide_self mult_eq_0_iff)
  finally show ?thesis using False by (simp add: normalize_q_def magnitude_def Let_def m_def)
qed

lemma normalize_unit: "magnitude q = 1 \<Longrightarrow> normalize_q q = q"
  by (simp add: normalize_q_def)

lemma dot_self: "dot q q = magnitude q * magnitude q"
  by (simp add: dot_def magnitude_sq)

lemma dot_commute: "dot a b = dot b a"
  by (simp add: dot_def mult.commute)

lemma magnitude_negate: "magnitude (negate q) = magnitude q"
  by (simp add: magnitude_def negate_def)

lemma sqrt36: "sqrt 36 = 6"
  by (rule real_sqrt_unique) simp_all

text \<open>
  Claim C7. \<open>hamiltonProduct a b\<close> computes the four components of the Hamilton
  formula and returns them normalised: divided by the square root of the sum of their
  squares, or the identity \<open>(1,0,0,0)\<close> when that root is 0. For unit quaternions \<open>a\<close>
  and \<open>b\<close> the result has magnitude 1.
\<close>

theorem hamiltonProduct_spec:
  "hamiltonProduct a b =
     (let fw = w a * w b - x a * x b - y a * y b - z a * z b;
          fx = w a * x b + x a * w b + y a * z b - z a * y b;
          fy = w a * y b - x a * z b + y a * w b + z a * x b;
          fz = w a * z b + x a * y b - y a * x b + z a * w b;
          m = sqrt (fw * fw + fx * fx + fy * fy + fz * fz)
      in if m = 0 then \<lparr>w = 1, x = 0, y = 0, z = 0\<rparr>
         else \<lparr>w = fw / m, x = fx / m, y = fy / m, z = fz / m\<rparr>) \<and>
   (magnitude a = 1 \<and> magnitude b = 1 \<longrightarrow>
      sqrt (w (hamiltonProduct a b) * w (hamiltonProduct a b)
            + x (hamiltonProduct a b) * x (hamiltonProduct a b)
            + y (hamiltonProduct a b) * y (hamiltonProduct a b)
            + z (hamiltonProduct a b) * z (hamiltonProduct a b)) = 1)"
proof (intro conjI impI)
  show "hamiltonProduct a b =
     (let fw = w a * w b - x a * x b - y a * y b - z a * z b;
          fx = w a * x b + x a * w b + y a * z b - z a * y b;
          fy = w a * y b - x a * z b + y a * w b + z a * x b;
          fz = w a * z b + x a * y b - y a * x b + z a * w b;
          m = sqrt (fw * fw + fx * fx + fy * fy + fz * fz)
      in if m = 0 then \<lparr>w = 1, x = 0, y = 0, z = 0\<rparr>
         else \<lparr>w = fw / m, x = fx / m, y = fy / m, z = fz / m\<rparr>)"
    by (simp add: hamiltonProduct_def normalize_q_def magnitude_def Let_def)
next
  have "magnitude (hamiltonProduct a b) = 1"
    by (simp add: hamiltonProduct_def magnitude_normalize)
  then show "sqrt (w (hamiltonProduct a b) * w (hamiltonProduct a b)
            + x (hamiltonProduct a b) * x (hamiltonProduct a b)
            + y (hamiltonProduct a b) * y (hamiltonProduct a b)
            + z (hamiltonProduct a b) * z (hamiltonProduct a b)) = 1"
    by (simp add: magnitude_def)
qed

text \<open>
  The product of \<open>(2,0,0,0)\<close> and \<open>(0,3,0,0)\<close> has the components \<open>(0,6,0,0)\<close> before
  normalisation and is returned as \<open>(0,1,0,0)\<close>; the product of the units \<open>i\<close> and \<open>j\<close>
  is \<open>k\<close>.
\<close>

theorem hamiltonProduct_spec_witness:
  "hamiltonProduct \<lparr>w = 2, x = 0, y = 0, z = 0\<rparr> \<lparr>w = 0, x = 3, y = 0, z = 0\<rparr>
     = \<lparr>w = 0, x = 1, y = 0, z = 0\<rparr> \<and>
   magnitude \<lparr>w = 0, x = 1, y = 0, z = 0\<rparr> = 1 \<and>
   magnitude \<lparr>w = 0, x = 0, y = 1, z = 0\<rparr> = 1 \<and>
   hamiltonProduct \<lparr>w = 0, x = 1, y = 0, z = 0\<rparr> \<lparr>w = 0, x = 0, y = 1, z = 0\<rparr>
     = \<lparr>w = 0, x = 0, y = 0, z = 1\<rparr> \<and>
   sqrt (w (hamiltonProduct \<lparr>w = 0, x = 1, y = 0, z = 0\<rparr> \<lparr>w = 0, x = 0, y = 1, z = 0\<rparr>)
           * w (hamiltonProduct \<lparr>w = 0, x = 1, y = 0, z = 0\<rparr> \<lparr>w = 0, x = 0, y = 1, z = 0\<rparr>)
         + x (hamiltonProduct \<lparr>w = 0, x = 1, y = 0, z = 0\<rparr> \<lparr>w = 0, x = 0, y = 1, z = 0\<rparr>)
           * x (hamiltonProduct \<lparr>w = 0, x = 1, y = 0, z = 0\<rparr> \<lparr>w = 0, x = 0, y = 1, z = 0\<rparr>)
         + y (hamiltonProduct \<lparr>w = 0, x = 1, y = 0, z = 0\<rparr> \<lparr>w = 0, x = 0, y = 1, z = 0\<rparr>)
           * y (hamiltonProduct \<lparr>w = 0, x = 1, y = 0, z = 0\<rparr> \<lparr>w = 0, x = 0, y = 1, z = 0\<rparr>)
         + z (hamiltonProduct \<lparr>w = 0, x = 1, y = 0, z = 0\<rparr> \<lparr>w = 0, x = 0, y = 1, z = 0\<rparr>)
           * z (hamiltonProduct \<lparr>w = 0, x = 1, y = 0, z = 0\<rparr> \<lparr>w = 0, x = 0, y = 1, z = 0\<rparr>)) = 1"
  using hamiltonProduct_spec [of "\<lparr>w = 2, x = 0, y = 0, z = 0\<rparr>" "\<lparr>w = 0, x = 3, y = 0, z = 0\<rparr>"]
        hamiltonProduct_spec [of "\<lparr>w = 0, x = 1, y = 0, z = 0\<rparr>" "\<lparr>w = 0, x = 0, y = 1, z = 0\<rparr>"]
  by (simp add: magnitude_def sqrt36)

lemma quat_eta: "\<lparr>w = w q, x = x q, y = y q, z = z q\<rparr> = (q::Quaternion)"
  by simp

lemma slerp_magnitude: "magnitude (slerp a b t) = 1"
  by (simp add: slerp_def Let_def magnitude_normalize)

lemma slerp_0:
  assumes "magnitude a = 1"
  shows "slerp a b 0 = a"
  using assms by (simp add: slerp_def Let_def normalize_unit quat_eta)

lemma sin_arccos_pos:
  assumes "0 \<le> d" "d \<le> 0.9995"
  shows "sin (arccos d) \<noteq> (0::real)"
proof -
  have d1: "d < 1" using assms by simp
  have "sin (arccos d) = sqrt (1 - d\<^sup>2)" using assms d1 by (simp add: sin_arccos)
  moreover have "d\<^sup>2 < 1" using assms d1 by (simp add: abs_square_less_1)
  ultimately show ?thesis by simp
qed

text \<open>
  At \<open>t = 1\<close> both branches return the second argument after the sign correction:
  the linear branch normalises \<open>q1 + 1 * (q2Adj - q1)\<close>, the trigonometric branch has
  \<open>s0 = cos theta0 - d = 0\<close> and \<open>s1 = 1\<close>.
\<close>

lemma slerp_1:
  assumes "magnitude b = 1"
  shows "slerp a b 1 = (if dot a b < 0 then negate b else b)"
proof -
  define d where "d = (if dot a b < 0 then - dot a b else dot a b)"
  define c where "c = (if dot a b < 0 then negate b else b)"
  have c: "magnitude c = 1" using assms by (simp add: c_def magnitude_negate)
  have d0: "0 \<le> d" by (simp add: d_def)
  show ?thesis
  proof (cases "d > 0.9995")
    case True
    then show ?thesis using c normalize_unit [OF c]
      by (simp add: slerp_def Let_def d_def [symmetric] c_def [symmetric] quat_eta)
  next
    case False
    then have "sin (arccos d) \<noteq> 0" using d0 sin_arccos_pos by simp
    moreover have "cos (arccos d) = d" using d0 False by (simp add: cos_arccos)
    ultimately show ?thesis using False normalize_unit [OF c]
      by (simp add: slerp_def Let_def d_def [symmetric] c_def [symmetric] quat_eta)
  qed
qed

text \<open>
  Claim C4, as amended. For unit quaternions \<open>a\<close> and \<open>b\<close> and every \<open>t\<close>:
  \<open>slerp a b 0 = a\<close>; \<open>slerp a b 1\<close> is \<open>b\<close> when \<open>dot a b \<ge> 0\<close> and \<open>- b\<close> when
  \<open>dot a b < 0\<close> (the shortest-path correction); the result always has magnitude 1.
\<close>

theorem slerp_boundary:
  "magnitude a = 1 \<Longrightarrow> magnitude b = 1 \<Longrightarrow>
   slerp a b 0 = a \<and>
   slerp a b 1 = (if dot a b < 0 then negate b else b) \<and>
   magnitude (slerp a b t) = 1"
  by (simp add: slerp_0 slerp_1 slerp_magnitude)

theorem slerp_boundary_witness:
  "magnitude \<lparr>w = 1, x = 0, y = 0, z = 0\<rparr> = 1 \<and>
   magnitude \<lparr>w = 0, x = 1, y = 0, z = 0\<rparr> = 1 \<and>
   slerp \<lparr>w = 1, x = 0, y = 0, z = 0\<rparr> \<lparr>w = 0, x = 1, y = 0, z = 0\<rparr> 0 = \<lparr>w = 1, x = 0, y = 0, z = 0\<rparr> \<and>
   slerp \<lparr>w = 1, x = 0, y = 0, z = 0\<rparr> \<lparr>w = 0, x = 1, y = 0, z = 0\<rparr> 1 = \<lparr>w = 0, x = 1, y = 0, z = 0\<rparr> \<and>
   magnitude (slerp \<lparr>w = 1, x = 0, y = 0, z = 0\<rparr> \<lparr>w = 0, x = 1, y = 0, z = 0\<rparr> (1 / 2)) = 1"
  using slerp_boundary [of "\<lparr>w = 1, x = 0, y = 0, z = 0\<rparr>" "\<lparr>w = 0, x = 1, y = 0, z = 0\<rparr>" "1 / 2"]
  by (simp add: magnitude_def dot_def)

text \<open>
  Claim C4 as stated fails at \<open>t = 1\<close> for antipodal arguments: with \<open>a = (1,0,0,0)\<close>
  and \<open>b = (-1,0,0,0)\<close> the dot product is negative, \<open>b\<close> is negated, and the result
  is \<open>a = - b\<close>, not \<open>b\<close>.
\<close>

theorem slerp_boundary_counterexample:
  "magnitude \<lparr>w = 1, x = 0, y = 0, z = 0\<rparr> = 1 \<and>
   magnitude \<lparr>w = - 1, x = 0, y = 0, z = 0\<rparr> = 1 \<and>
   slerp \<lparr>w = 1, x = 0, y = 0, z = 0\<rparr> \<lparr>w = - 1, x = 0, y = 0, z = 0\<rparr> 1 = \<lparr>w = 1, x = 0, y = 0, z = 0\<rparr> \<and>
   slerp \<lparr>w = 1, x = 0, y = 0, z = 0\<rparr> \<lparr>w = - 1, x = 0, y = 0, z = 0\<rparr> 1 \<noteq> \<lparr>w = - 1, x = 0, y = 0, z = 0\<rparr>"
  by (simp add: magnitude_def slerp_def dot_def negate_def normalize_q_def)

section \<open>Properties of the similarity engine\<close>

lemma newSet_fold:
  "distinct acc \<Longrightarrow>
   distinct (fold (\<lambda>a acc. if a \<in> set acc then acc else acc @ [a]) as acc) \<and>
   set (fold (\<lambda>a acc. if a \<in> set acc then acc else acc @ [a]) as acc) = set acc \<union> set as"
  by (induction as arbitrary: acc) auto

lemma distinct_newSet: "distinct (newSet as)"
  using newSet_fold [of "[]" as] by (simp add: newSet_def)

lemma set_newSet: "set (newSet as) = set as"
  using newSet_fold [of "[]" as] by (simp add: newSet_def)

lemma length_newSet: "length (newSet as) = card (set as)"
  by (metis distinct_card distinct_newSet set_newSet)

lemma newSet_Nil_iff: "newSet as = [] \<longleftrightarrow> as = []"
  by (metis set_newSet set_empty)

lemma intersection_size:
  "length (newSet (filter (\<lambda>a. a \<in> set (newSet bs)) (newSet as))) = card (set as \<inter> set bs)"
proof -
  have "set (filter (\<lambda>a. a \<in> set (newSet bs)) (newSet as)) = set as \<inter> set bs"
    by (auto simp: set_newSet)
  then show ?thesis by (simp add: length_newSet)
qed

text \<open>The entanglement strength in terms of the two signatures as sets.\<close>

lemma entanglementStrength_eq:
  "entanglementStrength memA memB =
     0.5 * ((if max (card (set (primeSignature memA))) (card (set (primeSignature memB))) = 0 then 0
             else real (card (set (primeSignature memA) \<inter> set (primeSignature memB)))
                  / real (max (card (set (primeSignature memA))) (card (set (primeSignature memB)))))
            + \<bar>dot (quaternion memA) (quaternion memB)\<bar>)"
  unfolding entanglementStrength_def Let_def intersection_size
  unfolding length_newSet ..

text \<open>
  Claim C9. The entanglement strength is symmetric:
  \<open>entanglementStrength a b = entanglementStrength b a\<close> for all inputs.
\<close>

theorem entanglementStrength_symmetric:
  "entanglementStrength a b = entanglementStrength b a"
  by (simp add: entanglementStrength_eq Int_commute max.commute dot_commute)

text \<open>
  Claim C2, as amended. A memory with a unit quaternion compared with itself has
  entanglement strength 1 when its prime signature is not empty, and 1/2 when it is
  empty (the overlap term is then 0 by the guard \<^verbatim>\<open>maxSize === 0\<close>).
\<close>

theorem entanglementStrength_self:
  "magnitude (quaternion m) = 1 \<Longrightarrow>
   entanglementStrength m m = (if primeSignature m = [] then 1 / 2 else 1)"
  by (auto simp: entanglementStrength_eq dot_self card_gt_0_iff)

theorem entanglementStrength_self_witness:
  "magnitude (quaternion \<lparr>quaternion = \<lparr>w = 0, x = 1, y = 0, z = 0\<rparr>, primeSignature = [2, 3]\<rparr>) = 1 \<and>
   entanglementStrength
     \<lparr>quaternion = \<lparr>w = 0, x = 1, y = 0, z = 0\<rparr>, primeSignature = [2, 3]\<rparr>
     \<lparr>quaternion = \<lparr>w = 0, x = 1, y = 0, z = 0\<rparr>, primeSignature = [2, 3]\<rparr> = 1"
  using entanglementStrength_self
          [of "\<lparr>quaternion = \<lparr>w = 0, x = 1, y = 0, z = 0\<rparr>, primeSignature = [2, 3]\<rparr>"]
  by (simp add: magnitude_def)

text \<open>
  Claim C2 as stated fails on the empty signature: the unit quaternion \<open>(1,0,0,0)\<close> with
  no prime has strength 1/2 against itself.
\<close>

theorem entanglementStrength_self_counterexample:
  "entanglementStrength
     \<lparr>quaternion = \<lparr>w = 1, x = 0, y = 0, z = 0\<rparr>, primeSignature = []\<rparr>
     \<lparr>quaternion = \<lparr>w = 1, x = 0, y = 0, z = 0\<rparr>, primeSignature = []\<rparr> = 1 / 2 \<and>
   entanglementStrength
     \<lparr>quaternion = \<lparr>w = 1, x = 0, y = 0, z = 0\<rparr>, primeSignature = []\<rparr>
     \<lparr>quaternion = \<lparr>w = 1, x = 0, y = 0, z = 0\<rparr>, primeSignature = []\<rparr> \<noteq> 1"
  by (simp add: entanglementStrength_def newSet_def dot_def)

section \<open>Properties of the text encoder\<close>

lemma jaccard_self: "jaccardSimilarity s s = (if s = [] then 0 else 1)"
proof -
  have "newSet (newSet s @ newSet s) = [] \<longleftrightarrow> s = []"
    by (simp add: newSet_Nil_iff)
  moreover have "length (newSet (newSet s @ newSet s)) = card (set s)"
    by (simp add: length_newSet set_newSet)
  moreover have "card (set s) = 0 \<longleftrightarrow> s = []" by simp
  ultimately show ?thesis
    unfolding jaccardSimilarity_def Let_def intersection_size
    by (auto simp: newSet_Nil_iff)
qed

lemma length_signature_of: "length (signature_of cs) = length cs"
  by (simp add: signature_of_def)

lemma length_toLowerCase: "length (toLowerCase s) = length s"
  by (simp add: toLowerCase_def)

lemma encodeText_signature_Nil: "primeSignature (encodeText s) = [] \<longleftrightarrow> s = []"
proof -
  have "signature_of (toLowerCase s) = [] \<longleftrightarrow> s = []"
    using length_signature_of [of "toLowerCase s"] length_toLowerCase [of s]
    by (metis length_0_conv)
  then show ?thesis by (simp add: encodeText_def Let_def newSet_Nil_iff)
qed

lemma encodeText_unit: "magnitude (quaternion (encodeText s)) = 1"
  by (simp add: encodeText_def Let_def magnitude_normalize)

lemma encodeText_empty:
  "encodeText [] = \<lparr>quaternion = \<lparr>w = 1, x = 0, y = 0, z = 0\<rparr>, primeSignature = []\<rparr>"
  by (simp add: encodeText_def toLowerCase_def signature_of_def newSet_def normalize_q_def
        magnitude_def)

text \<open>
  Claim C1, as amended. With the default weights, the resonance score of the encoding
  of a string against itself is 1 for every non-empty string; for the empty string the
  signature is empty, the Jaccard term is 0 by the guard \<^verbatim>\<open>union.size === 0\<close>, and the
  score is 1/2.
\<close>

theorem resonance_self_score:
  "resonanceScore_default (encodeText s) (encodeText s) = (if s = [] then 1 / 2 else 1)"
  by (simp add: resonanceScore_default_def resonanceScore_def Let_def jaccard_self
                encodeText_signature_Nil dot_self encodeText_unit)

theorem resonance_self_score_witness:
  "resonanceScore_default (encodeText ''hello world'') (encodeText ''hello world'') = 1"
  using resonance_self_score [of "''hello world''"] by simp

text \<open>Claim C1 as stated fails at the empty string, where the score is 1/2.\<close>

theorem resonance_self_score_counterexample:
  "resonanceScore_default (encodeText []) (encodeText []) = 1 / 2 \<and>
   resonanceScore_default (encodeText []) (encodeText []) \<noteq> 1"
  by (simp add: encodeText_empty resonanceScore_default_def resonanceScore_def
        jaccardSimilarity_def newSet_def dot_def)

lemma encodeText_lower: "toLowerCase t = toLowerCase s \<Longrightarrow> encodeText t = encodeText s"
  by (simp add: encodeText_def)

lemma of_char_less: "(of_char c :: nat) < 256"
  by (metis of_char_mod_256 mod_less_divisor zero_less_numeral)

text \<open>
  The encoder on code units agrees with \<open>encodeText\<close> on the strings of the range.
\<close>

lemma char_eq_char_of: "c = char_of (n::nat) \<longleftrightarrow> take_bit 8 n = of_char c"
  by (metis char_of_eq_iff)

lemma signature_codes_of_char: "signature_codes (map of_char cs) = signature_of cs"
  by (simp add: signature_codes_def signature_of_def zip_map1 case_prod_unfold)

lemma encode_codes_of_char: "encode_codes (map of_char (toLowerCase s)) = encodeText s"
  by (simp add: encode_codes_def encodeText_def signature_codes_of_char)

lemma lower_unit_of_char: "lower_unit (of_char c) = Some (of_char (lower_char c))"
  by (simp add: lower_unit_def of_char_less)

lemma toLowerCase_units_of_char:
  "toLowerCase_units (map of_char s) = Some (map of_char (toLowerCase s))"
  by (induction s) (simp_all add: lower_unit_of_char toLowerCase_def)

lemma toLowerCase_units_append:
  "toLowerCase_units a = Some a' \<Longrightarrow> toLowerCase_units b = Some b' \<Longrightarrow>
   toLowerCase_units (a @ b) = Some (a' @ b')"
  by (induction a arbitrary: a') (auto split: option.splits)

text \<open>
  Lowering the capital form of a character gives the lowered character, the sharp s
  (capital form \<open>SS\<close>, lowered to \<open>ss\<close>) and the micro sign (capital form the Greek
  capital mu, lowered to the Greek small mu) apart.
\<close>

lemma lower_upper_char:
  assumes "c \<noteq> CHR 0xDF" "c \<noteq> CHR 0xB5"
  shows "toLowerCase_units (upper_char c) = Some [of_char (lower_char c)]"
proof -
  define n where "n = (of_char c :: nat)"
  have n: "n < 256" by (simp add: n_def of_char_less)
  have c: "char_of n = c" by (simp add: n_def)
  have "(of_char (CHR 0xDF) :: nat) = 223" "(of_char (CHR 0xB5) :: nat) = 181" by simp_all
  then have ne: "n \<noteq> 223" "n \<noteq> 181"
    using assms unfolding n_def by (metis of_char_eq_iff)+
  show ?thesis
  proof (cases "n = 255")
    case True
    then have "c = char_of (255::nat)" using c by simp
    then show ?thesis using True
      by (simp add: upper_char_def lower_unit_def lower_char_def n_def [symmetric])
  next
    case False
    show ?thesis
    proof (cases "(97 \<le> n \<and> n \<le> 122) \<or> (224 \<le> n \<and> n \<le> 254 \<and> n \<noteq> 247)")
      case True
      then have up: "upper_char c = [n - 32]"
        using ne False by (auto simp: upper_char_def n_def [symmetric])
      have "lower_char (char_of (n - 32)) = char_of n"
        using True n by (auto simp: lower_char_def Let_def)
      moreover have "lower_char c = c"
        using True by (auto simp: lower_char_def n_def [symmetric])
      ultimately show ?thesis using n c by (simp add: up lower_unit_def)
    next
      case F2: False
      then have up: "upper_char c = [n]"
        using ne False by (auto simp: upper_char_def n_def [symmetric] Let_def)
      show ?thesis using n c by (simp add: up lower_unit_def)
    qed
  qed
qed

lemma toLowerCase_toUpperCase:
  "CHR 0xDF \<notin> set s \<Longrightarrow> CHR 0xB5 \<notin> set s \<Longrightarrow>
   toLowerCase_units (toUpperCase s) = Some (map of_char (toLowerCase s))"
proof (induction s)
  case Nil
  then show ?case by (simp add: toUpperCase_def toLowerCase_def)
next
  case (Cons c cs)
  have 1: "toLowerCase_units (upper_char c) = Some [of_char (lower_char c)]"
    using Cons.prems by (intro lower_upper_char) auto
  have 2: "toLowerCase_units (toUpperCase cs) = Some (map of_char (toLowerCase cs))"
    using Cons by simp
  show ?case
    using toLowerCase_units_append [OF 1 2]
    by (simp add: toUpperCase_def toLowerCase_def)
qed

lemma encodeText_upper:
  "CHR 0xDF \<notin> set s \<Longrightarrow> CHR 0xB5 \<notin> set s \<Longrightarrow>
   encodeText_units (toUpperCase s) = Some (encodeText s)"
  by (simp add: encodeText_units_def toLowerCase_toUpperCase encode_codes_of_char)

lemma encodeText_units_of_char: "encodeText_units (map of_char s) = Some (encodeText s)"
  by (simp add: encodeText_units_def toLowerCase_units_of_char encode_codes_of_char)

lemma lower_hello: "toLowerCase ''hELLO'' = toLowerCase ''Hello''"
  by (simp add: toLowerCase_def lower_char_def char_of_eq_iff char_eq_char_of)

lemma upper_hello: "toUpperCase ''Hello'' = [72, 69, 76, 76, 79]"
  by (simp add: toUpperCase_def upper_char_def)

lemma upper_y: "toUpperCase [CHR 0xFF] = [376]"
  by (simp add: toUpperCase_def upper_char_def)

lemma sig_sharp_s: "primeSignature (encodeText [CHR 0xDF]) = [89]"
  by (simp add: encodeText_def Let_def toLowerCase_def lower_char_def signature_of_def
        PRIMES_def newSet_def)

lemma sig_micro: "primeSignature (encodeText [CHR 0xB5]) = [421]"
  by (simp add: encodeText_def Let_def toLowerCase_def lower_char_def signature_of_def
        PRIMES_def newSet_def)

lemma units_SS: "encodeText_units [83, 83] = Some (encode_codes [115, 115])"
  by (simp add: encodeText_units_def lower_unit_def lower_char_def)

lemma units_Mu: "encodeText_units [924] = Some (encode_codes [956])"
  by (simp add: encodeText_units_def lower_unit_def)

lemma sig_ss: "primeSignature (encode_codes [115, 115]) = [53, 59]"
  by (simp add: encode_codes_def Let_def signature_codes_def PRIMES_def newSet_def)

lemma sig_mu: "primeSignature (encode_codes [956]) = [269]"
  by (simp add: encode_codes_def Let_def signature_codes_def PRIMES_def newSet_def)

text \<open>
  Claim C5, as amended. \<open>encodeText\<close> is a function of the lowered text alone (it reads
  no other state, so two runs on one string agree): two strings with the same lowered
  form have the same quaternion and the same prime signature. For every string of code
  units below 256 that has neither a sharp s nor a micro sign, the encoding of its
  capital form (\<open>encodeText_units\<close>, which agrees with \<open>encodeText\<close> on the strings of
  the range) is the encoding of the string.
\<close>

theorem encodeText_case_insensitive:
  "(toLowerCase t = toLowerCase s \<longrightarrow> encodeText t = encodeText s) \<and>
   encodeText_units (map of_char s) = Some (encodeText s) \<and>
   (CHR 0xDF \<notin> set s \<and> CHR 0xB5 \<notin> set s \<longrightarrow>
      encodeText_units (toUpperCase s) = Some (encodeText s))"
  using encodeText_lower encodeText_upper encodeText_units_of_char by blast

text \<open>
  Two instances: \<open>Hello\<close> with its variants \<open>hELLO\<close> and \<open>HELLO\<close>, and the character
  \<open>0xFF\<close>, whose capital form \<open>0x178\<close> lies outside the range and is lowered back.
\<close>

theorem encodeText_case_insensitive_witness:
  "toLowerCase ''hELLO'' = toLowerCase ''Hello'' \<and>
   encodeText ''hELLO'' = encodeText ''Hello'' \<and>
   CHR 0xDF \<notin> set ''Hello'' \<and> CHR 0xB5 \<notin> set ''Hello'' \<and>
   toUpperCase ''Hello'' = [72, 69, 76, 76, 79] \<and>
   encodeText_units [72, 69, 76, 76, 79] = Some (encodeText ''Hello'') \<and>
   CHR 0xDF \<notin> set [CHR 0xFF] \<and> CHR 0xB5 \<notin> set [CHR 0xFF] \<and>
   toUpperCase [CHR 0xFF] = [376] \<and>
   encodeText_units [376] = Some (encodeText [CHR 0xFF])"
proof -
  have "CHR 0xDF \<notin> set ''Hello''" "CHR 0xB5 \<notin> set ''Hello''"
       "CHR 0xDF \<notin> set [CHR 0xFF]" "CHR 0xB5 \<notin> set [CHR 0xFF]" by simp_all
  with lower_hello upper_hello upper_y
       encodeText_case_insensitive [of "''hELLO''" "''Hello''"]
       encodeText_case_insensitive [of "[CHR 0xFF]" "[CHR 0xFF]"]
  show ?thesis by metis
qed

text \<open>
  Claim C5 as stated fails for the capital form of the sharp s and of the micro sign.
  \<^verbatim>\<open>toUpperCase\<close> turns the sharp s into \<open>SS\<close>, which is lowered to \<open>ss\<close> and encoded
  with the two primes 53 and 59, while the sharp s itself is unchanged by
  \<^verbatim>\<open>toLowerCase\<close> and encoded with the prime 89. It turns the micro sign into the Greek
  capital mu, lowered to the Greek small mu \<open>0x3BC\<close> and encoded with the prime 269,
  while the micro sign itself is encoded with the prime 421.
\<close>

theorem encodeText_case_insensitive_counterexample:
  "toUpperCase [CHR 0xDF] = [83, 83] \<and>
   encodeText_units (toUpperCase [CHR 0xDF]) \<noteq> Some (encodeText [CHR 0xDF]) \<and>
   toUpperCase [CHR 0xB5] = [924] \<and>
   encodeText_units (toUpperCase [CHR 0xB5]) \<noteq> Some (encodeText [CHR 0xB5])"
proof -
  have u1: "toUpperCase [CHR 0xDF] = [83, 83]" and u2: "toUpperCase [CHR 0xB5] = [924]"
    by (simp_all add: toUpperCase_def upper_char_def)
  have "primeSignature (encode_codes [115, 115]) \<noteq> primeSignature (encodeText [CHR 0xDF])"
    by (simp add: sig_sharp_s sig_ss)
  then have 1: "encode_codes [115, 115] \<noteq> encodeText [CHR 0xDF]" by metis
  have "primeSignature (encode_codes [956]) \<noteq> primeSignature (encodeText [CHR 0xB5])"
    by (simp add: sig_micro sig_mu)
  then have 2: "encode_codes [956] \<noteq> encodeText [CHR 0xB5]" by metis
  show ?thesis using 1 2 by (simp add: u1 u2 units_SS units_Mu)
qed

section \<open>Properties of the clustering\<close>

lemma fold_sum_resonance:
  "fold (\<lambda>r sum. sum + resonance r) rs a = a + sum_list (map resonance rs)"
  by (induction rs arbitrary: a) simp_all

lemma make_cluster_eq: "make_cluster cid members = spec_cluster cid members"
  by (simp add: make_cluster_def spec_cluster_def mean_resonance_def Let_def
        fold_sum_resonance comp_def)

lemma inner_fold:
  "distinct js \<Longrightarrow>
   fold (inner_step res th i) js (A, c) =
     (A \<union> {j \<in> set js. j \<notin> A \<and> linked th (res ! i) (res ! j)},
      c @ map ((!) res) (filter (\<lambda>j. j \<notin> A \<and> linked th (res ! i) (res ! j)) js))"
proof (induction js arbitrary: A c)
  case Nil
  then show ?case by simp
next
  case (Cons j js)
  have d: "distinct js" and j: "j \<notin> set js" using Cons.prems by auto
  show ?case
  proof (cases "j \<notin> A \<and> linked th (res ! i) (res ! j)")
    case True
    have f: "filter (\<lambda>k. k \<notin> insert j A \<and> linked th (res ! i) (res ! k)) js
             = filter (\<lambda>k. k \<notin> A \<and> linked th (res ! i) (res ! k)) js"
      by (rule filter_cong) (use j in auto)
    have s: "insert j A \<union> {k \<in> set js. k \<notin> insert j A \<and> linked th (res ! i) (res ! k)}
             = A \<union> {k \<in> set (j # js). k \<notin> A \<and> linked th (res ! i) (res ! k)}"
      using True j by auto
    have st: "inner_step res th i j (A, c) = (insert j A, c @ [res ! j])"
      using True by (simp add: inner_step_def linked_def)
    show ?thesis
      unfolding fold_Cons comp_apply st
      unfolding Cons.IH [OF d] f s
      using True by simp
  next
    case False
    then have st: "inner_step res th i j (A, c) = (A, c)"
      by (auto simp: inner_step_def linked_def)
    have s: "{k \<in> set js. k \<notin> A \<and> linked th (res ! i) (res ! k)}
          = {k \<in> set (j # js). k \<notin> A \<and> linked th (res ! i) (res ! k)}"
      using False by auto
    show ?thesis
      unfolding fold_Cons comp_apply st
      unfolding Cons.IH [OF d] s
      using False by simp
  qed
qed


lemma outer_step_assigned:
  "i \<in> A \<Longrightarrow> outer_step res th i (A, cl) = (A, cl)"
  by (simp add: outer_step_def)

lemma outer_step_seed:
  assumes "i \<notin> A"
  shows "outer_step res th i (A, cl) =
     (insert i A \<union> {j \<in> set [i + 1..<length res]. j \<notin> A \<and> linked th (res ! i) (res ! j)},
      cl @ [spec_cluster (length cl)
              (res ! i # map ((!) res)
                 (filter (\<lambda>j. j \<notin> A \<and> linked th (res ! i) (res ! j)) [i + 1..<length res]))])"
proof -
  have f: "filter (\<lambda>j. j \<notin> insert i A \<and> linked th (res ! i) (res ! j)) [i + 1..<length res]
           = filter (\<lambda>j. j \<notin> A \<and> linked th (res ! i) (res ! j)) [i + 1..<length res]"
    by (rule filter_cong) auto
  have s: "{j \<in> set [i + 1..<length res]. j \<notin> insert i A \<and> linked th (res ! i) (res ! j)}
           = {j \<in> set [i + 1..<length res]. j \<notin> A \<and> linked th (res ! i) (res ! j)}"
    by auto
  have "fold (inner_step res th i) [i + 1..<length res] (insert i A, [res ! i])
        = (insert i A \<union> {j \<in> set [i + 1..<length res]. j \<notin> A \<and> linked th (res ! i) (res ! j)},
           [res ! i] @ map ((!) res)
              (filter (\<lambda>j. j \<notin> A \<and> linked th (res ! i) (res ! j)) [i + 1..<length res]))"
    unfolding inner_fold [OF distinct_upt] f s ..
  then show ?thesis
    using assms by (simp add: outer_step_def make_cluster_eq del: set_upt)
qed

lemma outer_fold:
  "i \<le> n \<Longrightarrow> n = length res \<Longrightarrow>
   snd (fold (outer_step res th) [i..<n] (A, cl))
   = cl @ greedy_clusters th (length cl) (map ((!) res) (filter (\<lambda>j. j \<notin> A) [i..<n]))"
proof (induction "n - i" arbitrary: i A cl)
  case 0
  then show ?case by simp
next
  case (Suc k)
  then have lt: "i < n" and k: "k = n - (i + 1)" and le: "i + 1 \<le> n" by simp_all
  have upt: "[i..<n] = i # [i + 1..<n]" using lt by (simp add: upt_conv_Cons)
  show ?case
  proof (cases "i \<in> A")
    case True
    show ?thesis
      unfolding upt fold_Cons comp_apply outer_step_assigned [OF True]
      unfolding Suc.hyps(1) [OF k le Suc.prems(2)]
      using True by simp
  next
    case False
    define R where "R = filter (\<lambda>j. j \<notin> A) [i + 1..<n]"
    define P where "P = linked th (res ! i)"
    define A2 where
      "A2 = insert i A \<union> {j \<in> set [i + 1..<length res]. j \<notin> A \<and> linked th (res ! i) (res ! j)}"
    have members: "map ((!) res) (filter (\<lambda>j. j \<notin> A \<and> linked th (res ! i) (res ! j)) [i + 1..<n])
                   = filter P (map ((!) res) R)"
      by (simp add: R_def P_def filter_map comp_def)
    have rest: "map ((!) res) (filter (\<lambda>j. j \<notin> A2) [i + 1..<n])
                = filter (\<lambda>r. \<not> P r) (map ((!) res) R)"
    proof -
      have "filter (\<lambda>j. j \<notin> A2) [i + 1..<n]
            = filter (\<lambda>j. j \<notin> A \<and> \<not> linked th (res ! i) (res ! j)) [i + 1..<n]"
        by (rule filter_cong) (auto simp: A2_def Suc.prems(2))
      then show ?thesis by (simp add: R_def P_def filter_map comp_def)
    qed
    have seed: "map ((!) res) (filter (\<lambda>j. j \<notin> A) [i..<n]) = res ! i # map ((!) res) R"
      using False by (simp add: upt R_def)
    have step: "outer_step res th i (A, cl)
                = (A2, cl @ [spec_cluster (length cl) (res ! i # filter P (map ((!) res) R))])"
      unfolding outer_step_seed [OF False] A2_def [symmetric]
      using members by (simp add: Suc.prems(2))
    have "snd (fold (outer_step res th) [i..<n] (A, cl))
          = snd (fold (outer_step res th) [i + 1..<n]
               (A2, cl @ [spec_cluster (length cl) (res ! i # filter P (map ((!) res) R))]))"
      unfolding upt fold_Cons comp_apply step ..
    also have "\<dots> = (cl @ [spec_cluster (length cl) (res ! i # filter P (map ((!) res) R))])
                     @ greedy_clusters th (length cl + 1) (filter (\<lambda>r. \<not> P r) (map ((!) res) R))"
      unfolding Suc.hyps(1) [OF k le Suc.prems(2)] rest by simp
    also have "\<dots> = cl @ greedy_clusters th (length cl) (res ! i # map ((!) res) R)"
      by (simp add: P_def)
    finally show ?thesis unfolding seed .
  qed
qed

lemma clusterResults_refines: "clusterResults res th = spec_clusterResults res th"
proof (cases "res = []")
  case True
  then show ?thesis by (simp add: clusterResults_def spec_clusterResults_def)
next
  case False
  have "snd (fold (outer_step res th) [0..<length res] ({}, []))
        = greedy_clusters th 0 (map ((!) res) [0..<length res])"
    using outer_fold [of 0 "length res" res th "{}" "[]"] by simp
  then have "snd (fold (outer_step res th) [0..<length res] ({}, [])) = greedy_clusters th 0 res"
    by (simp add: map_nth)
  then show ?thesis
    using False by (simp add: clusterResults_def spec_clusterResults_def split_beta)
qed

lemma unmark_mark: "unmark (r\<lparr>clusterId := Some cid\<rparr>) = unmark r"
  by (simp add: unmark_def)

lemma greedy_nonempty: "c \<in> set (greedy_clusters th cid rs) \<Longrightarrow> results c \<noteq> []"
  by (induction th cid rs rule: greedy_clusters.induct) (auto simp: spec_cluster_def)

lemma greedy_sizes:
  "sum_list (map (\<lambda>c. length (results c)) (greedy_clusters th cid rs)) = length rs"
proof (induction th cid rs rule: greedy_clusters.induct)
  case (1 th cid)
  then show ?case by simp
next
  case (2 th cid seed later)
  have "length (filter (linked th seed) later) + length (filter (\<lambda>r. \<not> linked th seed r) later)
        = length later"
    by (rule sum_length_filter_compl)
  then show ?case using 2 by (simp add: spec_cluster_def)
qed

lemma greedy_members:
  "mset (map unmark (concat (map results (greedy_clusters th cid rs)))) = mset (map unmark rs)"
proof (induction th cid rs rule: greedy_clusters.induct)
  case (1 th cid)
  then show ?case by simp
next
  case (2 th cid seed later)
  have "mset (filter (linked th seed) later) + mset (filter (\<lambda>r. \<not> linked th seed r) later)
        = mset later"
    by simp
  then have "image_mset unmark (mset (filter (linked th seed) later)
                                  + mset (filter (\<lambda>r. \<not> linked th seed r) later))
             = image_mset unmark (mset later)"
    by (rule arg_cong)
  then have "image_mset unmark (mset (filter (linked th seed) later))
             + image_mset unmark (mset (filter (\<lambda>r. \<not> linked th seed r) later))
             = image_mset unmark (mset later)"
    by (simp only: image_mset_union)
  then show ?case using 2
    by (simp add: spec_cluster_def comp_def unmark_mark)
qed

lemma sum_list_sort_key:
  "sum_list (map f (sort_key g cs)) = sum_list (map (f :: 'a \<Rightarrow> nat) cs)"
proof -
  have "sum_mset (mset (map f (sort_key g cs))) = sum_mset (mset (map f cs))" by simp
  then show ?thesis by (simp only: sum_mset_sum_list)
qed

lemma mset_concat_sort_key:
  "mset (concat (map f (sort_key g cs))) = mset (concat (map f cs))"
proof -
  have "sum_mset (mset (map (\<lambda>c. mset (f c)) (sort_key g cs)))
        = sum_mset (mset (map (\<lambda>c. mset (f c)) cs))" by simp
  then have "sum_list (map (\<lambda>c. mset (f c)) (sort_key g cs)) = sum_list (map (\<lambda>c. mset (f c)) cs)"
    by (simp only: sum_mset_sum_list)
  then show ?thesis by (simp add: mset_concat comp_def)
qed

lemma example_run: "clusterResults example_results (3 / 10) = example_clusters"
  by code_simp




text \<open>
  Claim C10. The clusters returned partition the input: every cluster has a member,
  the sizes of the clusters add up to the length of the input, and the members of all
  clusters together are the input results, each as often as it occurs in the input
  (cluster marks apart), whatever the threshold.
\<close>

theorem clusterResults_partition:
  "(\<forall>c\<in>set (clusterResults res th). results c \<noteq> []) \<and>
   sum_list (map (\<lambda>c. length (results c)) (clusterResults res th)) = length res \<and>
   mset (map unmark (concat (map results (clusterResults res th)))) = mset (map unmark res)"
proof (intro conjI ballI)
  fix c assume "c \<in> set (clusterResults res th)"
  then show "results c \<noteq> []"
    by (simp add: clusterResults_refines spec_clusterResults_def greedy_nonempty)
next
  show "sum_list (map (\<lambda>c. length (results c)) (clusterResults res th)) = length res"
    by (simp add: clusterResults_refines spec_clusterResults_def sum_list_sort_key greedy_sizes)
next
  have "mset (map unmark (concat (map results (clusterResults res th))))
        = image_mset unmark (mset (concat (map results (greedy_clusters th 0 res))))"
    by (simp add: clusterResults_refines spec_clusterResults_def mset_concat_sort_key)
  then show "mset (map unmark (concat (map results (clusterResults res th)))) = mset (map unmark res)"
    using greedy_members [of th 0 res] by simp
qed

theorem clusterResults_partition_witness:
  "clusterResults example_results (3 / 10) = example_clusters \<and>
   results (example_clusters ! 0) \<noteq> [] \<and>
   results (example_clusters ! 1) \<noteq> [] \<and>
   sum_list (map (\<lambda>c. length (results c)) (clusterResults example_results (3 / 10)))
     = length example_results \<and>
   mset (map unmark (concat (map results (clusterResults example_results (3 / 10)))))
     = mset (map unmark example_results)"
proof -
  have "results (example_clusters ! 0) \<noteq> []" "results (example_clusters ! 1) \<noteq> []"
    by (simp_all add: example_clusters_def)
  with example_run clusterResults_partition [of example_results "3 / 10"]
  show ?thesis by blast
qed

end
